theory Spec2Isabelle
  imports Main "HOL-Library.AList"
begin

section \<open>The render manager of generator-assets (lib/rendermanager.js)\<close>

text \<open>
  The module schedules the rendering of layer components. A manager object carries three
  collections of job records (\<open>_workSet\<close>, \<open>_pending\<close>, \<open>_working\<close>), a cache of pixmap
  renderers and the handle of a change timer. Its methods are modelled as functions on a
  record of the manager's fields together with the part of the JavaScript runtime the
  methods act on: the clock, the outstanding timeouts, the deferreds made by \<open>Q.defer()\<close>,
  the promises of the collaborators that are still unsettled, and a time-stamped log of
  every call made to a collaborator. The fields \<open>_generator\<close>, \<open>_svgRenderers\<close> and
  \<open>_jobCounter\<close> and the method \<open>_getSVGRenderer\<close> are left out: no other method of the
  module reads or calls them.
\<close>

subsection \<open>JavaScript objects used as dictionaries\<close>

text \<open>
  The three collections are plain objects keyed by component id. Ids are numbers (the
  message of \<open>render\<close> formats the id with \<open>%d\<close>): \<open>Idx n\<close> is the key of an id that is an
  array index, \<open>Name s\<close> the key of any other id (its string, such as \<open>-1\<close> or \<open>1.5\<close>). No
  such key is the name of a member of \<open>Object.prototype\<close>, so \<open>hasOwnProperty\<close> is always
  the inherited method. An object is kept as an association list in insertion order:
  assignment to an existing key keeps its place, assignment to a new key appends,
  \<open>delete\<close> removes. \<open>Object.keys\<close> lists the array-index keys in ascending numeric order
  and then the other keys in insertion order.
\<close>

datatype pkey = Idx nat | Name string

type_synonym 'v obj = "(pkey \<times> 'v) list"

fun idxs :: "pkey list \<Rightarrow> nat list" where
  "idxs [] = []"
| "idxs (Idx n # ks) = n # idxs ks"
| "idxs (Name s # ks) = idxs ks"

fun names :: "pkey list \<Rightarrow> string list" where
  "names [] = []"
| "names (Idx n # ks) = names ks"
| "names (Name s # ks) = s # names ks"

definition Object_keys :: "'v obj \<Rightarrow> pkey list" where
  "Object_keys ob = map Idx (sort (idxs (map fst ob))) @ map Name (names (map fst ob))"

definition hasOwnProperty :: "'v obj \<Rightarrow> pkey \<Rightarrow> bool" where
  "hasOwnProperty ob k = (map_of ob k \<noteq> None)"

subsection \<open>Data\<close>

text \<open>
  Of a document, a layer and a component the module reads \<open>document.id\<close>, \<open>layer.id\<close> and
  \<open>component.extension\<close> only.
\<close>

record document =
  doc_id :: nat

record layer =
  layer_id :: nat

record component =
  extension :: string

record bounds =
  top :: int
  left :: int
  bottom :: int
  right :: int

record pixmapInfo =
  pixmap_bounds :: bounds

text \<open>The job record that \<open>render\<close> builds; \<open>deferred\<close> is the index of its deferred.\<close>

record job =
  deferred :: nat
  document :: document
  layer :: layer
  component :: component

text \<open>A deferred of the Q library: unsettled, resolved with a value, or rejected.\<close>

datatype dstate = Unsettled | ResolvedWith string | RejectedD

text \<open>A timeout of the runtime: its handle, the time it was set and its delay.\<close>

record timer =
  handle :: nat
  idleStart :: nat
  idleTimeout :: nat

text \<open>
  A promise of a collaborator that has not settled yet, with what the handlers attached to
  it close over. \<open>Measuring\<close>: the promise of \<open>generator.getPixmap\<close>; \<open>Rendering\<close>: the
  promise of the renderer's \<open>render\<close>.
\<close>

datatype stage = Measuring | Rendering

record operation =
  op_stage :: stage
  op_componentId :: pkey
  op_document :: document
  op_layer :: layer
  op_component :: component

text \<open>How a promise settles: resolved with a value, or rejected with an error (its stack).\<close>

datatype 'a outcome = Resolved 'a | Failed string

text \<open>The calls the module makes to its collaborators and to the runtime.\<close>

datatype effect =
    ConsoleLog string
  | ConsoleLogLayer nat
  | ConsoleWarn nat string
  | SetTimeout nat nat
  | CreatePixmapRenderer nat
  | GetPixmap nat nat bool
  | RendererRender nat layer component "bounds option"
  | DocumentOff string

datatype error = TypeError | Error string

record manager =
  pixmapRenderers :: "nat list"
  pending :: "job obj"
  working :: "job obj"
  theDocument :: "document option"
  changeTimer :: "nat option"
  workSet :: "job obj option"
  now :: nat
  timers :: "timer list"
  nextTimer :: nat
  deferreds :: "dstate list"
  inflight :: "(nat \<times> operation) list"
  nextOp :: nat
  trace :: "(nat \<times> effect) list"

text \<open>
  \<open>CHANGE_DELAY\<close> is the constant of the module. \<open>MAX_JOBS\<close> is \<open>os.cpus().length\<close>, read
  from the host when the module is loaded: it is a parameter of the functions below.
\<close>

definition CHANGE_DELAY :: nat where
  "CHANGE_DELAY = 1000"

text \<open>
  The constructor sets \<open>_pending\<close> and \<open>_working\<close> (and two renderer caches) to empty
  objects. \<open>_document\<close>, \<open>_changeTimer\<close> and \<open>_workSet\<close> keep the prototype's \<open>null\<close>.
  Timer handles are truthy, so they are numbered from 1.
\<close>

definition RenderManager :: manager where
  "RenderManager =
     \<lparr> pixmapRenderers = [], pending = [], working = [], theDocument = None,
       changeTimer = None, workSet = None,
       now = 0, timers = [], nextTimer = 1, deferreds = [], inflight = [], nextOp = 0,
       trace = [] \<rparr>"

definition emit :: "effect \<Rightarrow> manager \<Rightarrow> manager" where
  "emit e this = this\<lparr>trace := trace this @ [(now this, e)]\<rparr>"

subsection \<open>The methods\<close>

text \<open>
  \<open>_getPixmapRenderer\<close>: one renderer per document id, created on first use. The renderer
  is identified by the id of its document.
\<close>

definition getPixmapRenderer :: "document \<Rightarrow> manager \<Rightarrow> manager" where
  "getPixmapRenderer doc this =
     (if doc_id doc \<in> set (pixmapRenderers this) then this
      else emit (CreatePixmapRenderer (doc_id doc))
             (this\<lparr>pixmapRenderers := pixmapRenderers this @ [doc_id doc]\<rparr>))"

text \<open>
  \<open>_renderComponent\<close>: returns the promise it hands back (the stage that is awaited) and the
  manager after the calls it made. The collaborators are taken at their contract: the
  generator's \<open>getPixmap\<close> and a renderer's \<open>render\<close> return a promise and do not throw.
\<close>

definition renderComponent ::
  "document \<Rightarrow> layer \<Rightarrow> component \<Rightarrow> manager \<Rightarrow> stage \<times> manager" where
  "renderComponent doc lyr cpt this =
     (let this1 = emit (ConsoleLogLayer (layer_id lyr)) this in
      if extension cpt = ''svg''
      then (Rendering,
            emit (RendererRender (doc_id doc) lyr cpt None)
              (getPixmapRenderer doc this1))
      else (Measuring,
            emit (GetPixmap (doc_id doc) (layer_id lyr) True) this1))"

text \<open>
  The \<open>then\<close> callback of the non-vector path, run when \<open>getPixmap\<close> resolves.
\<close>

definition renderWithBounds ::
  "document \<Rightarrow> layer \<Rightarrow> component \<Rightarrow> pixmapInfo \<Rightarrow> manager \<Rightarrow> manager" where
  "renderWithBounds doc lyr cpt info this =
     (let exactBounds = pixmap_bounds info in
      emit (RendererRender (doc_id doc) lyr cpt (Some exactBounds))
        (getPixmapRenderer doc this))"

text \<open>
  The middle of \<open>_processWorkSet\<close>: the job leaves \<open>_pending\<close>, enters \<open>_working\<close>, its render
  is begun and the \<open>fail\<close> and \<open>finally\<close> handlers are attached to the promise.
\<close>

definition launch :: "pkey \<Rightarrow> job \<Rightarrow> manager \<Rightarrow> manager" where
  "launch componentId jb this =
     (let this1 = this\<lparr>pending := AList.delete componentId (pending this)\<rparr>;
          this2 = this1\<lparr>working := AList.update componentId jb (working this1)\<rparr>;
          (st, this3) = renderComponent (document jb) (layer jb) (component jb) this2
      in this3\<lparr>inflight := inflight this3 @
                   [(nextOp this3,
                     \<lparr>op_stage = st, op_componentId = componentId,
                      op_document = document jb, op_layer = layer jb,
                      op_component = component jb\<rparr>)],
               nextOp := Suc (nextOp this3)\<rparr>)"

text \<open>
  \<open>_processWorkSet\<close>. The source returns when the number of keys of \<open>_pending\<close> has reached
  \<open>MAX_JOBS\<close>; otherwise it takes the first key of \<open>_pending\<close>, launches its job and calls
  itself; with no key left it logs and clears \<open>_changeTimer\<close>. The first key of a
  non-empty object always has a value, so the branch \<open>None\<close> is never taken.
\<close>

function processWorkSet :: "nat \<Rightarrow> manager \<Rightarrow> manager" where
  "processWorkSet MAX_JOBS this =
     (let keys = Object_keys (pending this) in
      if length keys \<ge> MAX_JOBS then this
      else (case keys of
              componentId # _ \<Rightarrow>
                (case map_of (pending this) componentId of
                   Some jb \<Rightarrow> processWorkSet MAX_JOBS (launch componentId jb this)
                 | None \<Rightarrow> this)
            | [] \<Rightarrow> (emit (ConsoleLog ''Rendering quiesced.'') this)\<lparr>changeTimer := None\<rparr>))"
  by pat_completeness auto
termination
proof (relation "measure (\<lambda>(m, this). length (pending this))", goal_cases)
  case 1
  show ?case by simp
next
  case (2 MAX_JOBS this keys componentId rest jb)
  have shrink: "length (AList.delete k al) < length al" if "map_of al k = Some v"
    for k :: pkey and v :: job and al
    using that by (induction al) (auto simp: AList.delete_eq less_Suc_eq_le split: if_splits)
  have "pending (launch componentId jb this) = AList.delete componentId (pending this)"
    by (simp add: launch_def renderComponent_def getPixmapRenderer_def emit_def Let_def
          split: prod.splits if_splits)
  with 2 shrink show ?case by simp
qed

text \<open>
  \<open>render\<close>: reading \<open>hasOwnProperty\<close> of the \<open>null\<close> work set raises a TypeError. The
  \<open>Error\<close> constructor takes its first argument as the message and ignores the second.
  The result is the exception thrown, or the index of the deferred whose promise is
  returned.
\<close>

definition render ::
  "manager \<Rightarrow> document \<Rightarrow> layer \<Rightarrow> component \<Rightarrow> pkey \<Rightarrow> (error + nat) \<times> manager" where
  "render this doc lyr cpt componentId =
     (case workSet this of
        None \<Rightarrow> (Inl TypeError, this)
      | Some ws \<Rightarrow>
          if hasOwnProperty ws componentId
          then (Inl (Error ''Render already pending for component: %d''), this)
          else
            (let d = length (deferreds this);
                 this1 = this\<lparr>deferreds := deferreds this @ [Unsettled]\<rparr>;
                 this2 = this1\<lparr>workSet := Some (AList.update componentId
                            \<lparr>deferred = d, document = doc, layer = lyr, component = cpt\<rparr> ws)\<rparr>;
                 this3 = (if changeTimer this2 = None
                          then (emit (SetTimeout (nextTimer this2) CHANGE_DELAY) this2)
                                 \<lparr>changeTimer := Some (nextTimer this2),
                                  timers := timers this2 @
                                    [\<lparr>handle = nextTimer this2, idleStart = now this2,
                                      idleTimeout = CHANGE_DELAY\<rparr>],
                                  nextTimer := Suc (nextTimer this2)\<rparr>
                          else this2)
             in (Inr d, this3)))"

text \<open>\<open>deferred.reject()\<close>: a deferred settles once; later calls change nothing.\<close>

definition reject :: "nat \<Rightarrow> manager \<Rightarrow> manager" where
  "reject d this =
     (if d < length (deferreds this) \<and> deferreds this ! d = Unsettled
      then this\<lparr>deferreds := (deferreds this)[d := RejectedD]\<rparr> else this)"

text \<open>
  \<open>cancel\<close>: \<open>set\<close> stays \<open>undefined\<close> when the id is a key of neither \<open>_pending\<close> nor
  \<open>_working\<close>, and \<open>set[componentId]\<close> then raises a TypeError.
\<close>

datatype which = InPending | InWorking

definition cancel :: "manager \<Rightarrow> pkey \<Rightarrow> (error + unit) \<times> manager" where
  "cancel this componentId =
     (let st = (if hasOwnProperty (pending this) componentId then Some InPending
                else if hasOwnProperty (working this) componentId then Some InWorking
                else None)
      in case st of
           None \<Rightarrow> (Inl TypeError, this)
         | Some InPending \<Rightarrow>
             (case map_of (pending this) componentId of
                None \<Rightarrow> (Inl TypeError, this)
              | Some jb \<Rightarrow>
                  (Inr (), reject (deferred jb)
                     (this\<lparr>pending := AList.delete componentId (pending this)\<rparr>)))
         | Some InWorking \<Rightarrow>
             (case map_of (working this) componentId of
                None \<Rightarrow> (Inl TypeError, this)
              | Some jb \<Rightarrow>
                  (Inr (), reject (deferred jb)
                     (this\<lparr>working := AList.delete componentId (working this)\<rparr>))))"

text \<open>
  \<open>finish\<close>: the work set becomes an empty object, then \<open>off\<close> is called on \<open>_document\<close>,
  which raises a TypeError while \<open>_document\<close> is \<open>null\<close>.
\<close>

definition finish :: "manager \<Rightarrow> (error + unit) \<times> manager" where
  "finish this =
     (let this1 = this\<lparr>workSet := Some []\<rparr> in
      case theDocument this1 of
        None \<Rightarrow> (Inl TypeError, this1)
      | Some d \<Rightarrow> (Inr (), emit (DocumentOff ''change'') this1))"

subsection \<open>Callbacks run by the runtime\<close>

text \<open>
  The handlers that \<open>_processWorkSet\<close> attaches to the promise of a render: \<open>fail\<close> logs a
  warning, \<open>finally\<close> deletes the id from \<open>_working\<close> and calls \<open>_processWorkSet\<close>.
\<close>

definition failHandler :: "layer \<Rightarrow> string \<Rightarrow> manager \<Rightarrow> manager" where
  "failHandler lyr stack this = emit (ConsoleWarn (layer_id lyr) stack) this"

definition finallyHandler :: "nat \<Rightarrow> pkey \<Rightarrow> manager \<Rightarrow> manager" where
  "finallyHandler MAX_JOBS componentId this =
     processWorkSet MAX_JOBS (this\<lparr>working := AList.delete componentId (working this)\<rparr>)"

text \<open>
  The promise \<open>k\<close> of \<open>generator.getPixmap\<close> settles. Resolved, the \<open>then\<close> callback calls the
  renderer with the exact bounds and the operation goes on awaiting that render; rejected,
  the rejection passes to the \<open>fail\<close> and \<open>finally\<close> handlers. A promise settles once: an
  operation that is not awaiting this promise is left alone.
\<close>

definition pixmapSettles :: "nat \<Rightarrow> manager \<Rightarrow> nat \<Rightarrow> pixmapInfo outcome \<Rightarrow> manager" where
  "pixmapSettles MAX_JOBS this k out =
     (case map_of (inflight this) k of
        None \<Rightarrow> this
      | Some opn \<Rightarrow>
          if op_stage opn \<noteq> Measuring then this
          else (case out of
                  Resolved info \<Rightarrow>
                    (renderWithBounds (op_document opn) (op_layer opn) (op_component opn) info this)
                      \<lparr>inflight := AList.update k (opn\<lparr>op_stage := Rendering\<rparr>) (inflight this)\<rparr>
                | Failed stack \<Rightarrow>
                    finallyHandler MAX_JOBS (op_componentId opn)
                      (failHandler (op_layer opn) stack
                         (this\<lparr>inflight := AList.delete k (inflight this)\<rparr>))))"

text \<open>The promise \<open>k\<close> of the renderer's \<open>render\<close> settles.\<close>

definition renderSettles :: "nat \<Rightarrow> manager \<Rightarrow> nat \<Rightarrow> string outcome \<Rightarrow> manager" where
  "renderSettles MAX_JOBS this k out =
     (case map_of (inflight this) k of
        None \<Rightarrow> this
      | Some opn \<Rightarrow>
          if op_stage opn \<noteq> Rendering then this
          else (case out of
                  Resolved result \<Rightarrow>
                    finallyHandler MAX_JOBS (op_componentId opn)
                      (this\<lparr>inflight := AList.delete k (inflight this)\<rparr>)
                | Failed stack \<Rightarrow>
                    finallyHandler MAX_JOBS (op_componentId opn)
                      (failHandler (op_layer opn) stack
                         (this\<lparr>inflight := AList.delete k (inflight this)\<rparr>))))"

text \<open>
  The runtime runs the callback of timeout \<open>h\<close>, which calls \<open>_processWorkSet\<close>. A timeout
  runs once, and not before its delay has passed.
\<close>

definition timeoutFires :: "nat \<Rightarrow> manager \<Rightarrow> nat \<Rightarrow> manager" where
  "timeoutFires MAX_JOBS this h =
     (case find (\<lambda>t. handle t = h) (timers this) of
        None \<Rightarrow> this
      | Some t \<Rightarrow>
          if idleStart t + idleTimeout t \<le> now this
          then processWorkSet MAX_JOBS
                 (this\<lparr>timers := filter (\<lambda>t. handle t \<noteq> h) (timers this)\<rparr>)
          else this)"

subsection \<open>Executions\<close>

text \<open>
  What can happen to a manager: a caller invokes one of the three public methods (an
  exception it throws goes to the caller, the manager keeps the state it had reached),
  time passes, or the runtime runs a callback.
\<close>

datatype event =
    CallRender document layer component pkey
  | CallCancel pkey
  | CallFinish
  | Elapse nat
  | TimeoutFires nat
  | PixmapSettles nat "pixmapInfo outcome"
  | RenderSettles nat "string outcome"

fun step :: "nat \<Rightarrow> manager \<Rightarrow> event \<Rightarrow> manager" where
  "step MAX_JOBS this (CallRender doc lyr cpt componentId) =
     snd (render this doc lyr cpt componentId)"
| "step MAX_JOBS this (CallCancel componentId) = snd (cancel this componentId)"
| "step MAX_JOBS this CallFinish = snd (finish this)"
| "step MAX_JOBS this (Elapse d) = this\<lparr>now := now this + d\<rparr>"
| "step MAX_JOBS this (TimeoutFires h) = timeoutFires MAX_JOBS this h"
| "step MAX_JOBS this (PixmapSettles k out) = pixmapSettles MAX_JOBS this k out"
| "step MAX_JOBS this (RenderSettles k out) = renderSettles MAX_JOBS this k out"

definition run :: "nat \<Rightarrow> manager \<Rightarrow> event list \<Rightarrow> manager" where
  "run MAX_JOBS this es = foldl (step MAX_JOBS) this es"

text \<open>
  A manager is idle when it has no job in \<open>_pending\<close>, none in \<open>_working\<close> and no promise
  of a collaborator is awaited.
\<close>

definition idle :: "manager \<Rightarrow> bool" where
  "idle this = (pending this = [] \<and> working this = [] \<and> inflight this = [])"

subsection \<open>Sample data\<close>

definition docA :: document where
  "docA = \<lparr>doc_id = 7\<rparr>"

definition layer1 :: layer where
  "layer1 = \<lparr>layer_id = 1\<rparr>"

definition layer2 :: layer where
  "layer2 = \<lparr>layer_id = 2\<rparr>"

definition layer3 :: layer where
  "layer3 = \<lparr>layer_id = 3\<rparr>"

definition vectorComponent :: component where
  "vectorComponent = \<lparr>extension = ''svg''\<rparr>"

definition rasterComponent :: component where
  "rasterComponent = \<lparr>extension = ''png''\<rparr>"

definition jobA :: job where
  "jobA = \<lparr>deferred = 0, document = docA, layer = layer1, component = vectorComponent\<rparr>"

definition jobB :: job where
  "jobB = \<lparr>deferred = 1, document = docA, layer = layer2, component = rasterComponent\<rparr>"

definition jobC :: job where
  "jobC = \<lparr>deferred = 2, document = docA, layer = layer3, component = rasterComponent\<rparr>"

text \<open>
  \<open>finish\<close>, three submissions with distinct ids, the quiet period, and the timeout.
\<close>

definition threeSubmissions :: "event list" where
  "threeSubmissions =
     [CallFinish,
      CallRender docA layer1 vectorComponent (Idx 1),
      CallRender docA layer2 rasterComponent (Idx 2),
      CallRender docA layer3 rasterComponent (Idx 3),
      Elapse 1000,
      TimeoutFires 1]"

text \<open>\<open>finish\<close>, one submission, the quiet period, and the timeout.\<close>

definition oneSubmission :: "event list" where
  "oneSubmission =
     [CallFinish,
      CallRender docA layer1 vectorComponent (Idx 1),
      Elapse 1000,
      TimeoutFires 1]"

text \<open>Managers whose \<open>_pending\<close> and \<open>_working\<close> hold job records.\<close>

definition threeQueued :: manager where
  "threeQueued = RenderManager\<lparr>pending := [(Idx 1, jobA), (Idx 2, jobB), (Idx 3, jobC)],
     deferreds := [Unsettled, Unsettled, Unsettled]\<rparr>"

definition opA :: operation where
  "opA = \<lparr>op_stage = Rendering, op_componentId = Idx 1, op_document = docA,
          op_layer = layer1, op_component = vectorComponent\<rparr>"

definition opB :: operation where
  "opB = \<lparr>op_stage = Measuring, op_componentId = Idx 2, op_document = docA,
          op_layer = layer2, op_component = rasterComponent\<rparr>"

text \<open>Job 1 is being rendered and job 2 is pending.\<close>

definition oneRunningOneQueued :: manager where
  "oneRunningOneQueued = RenderManager\<lparr>pixmapRenderers := [7],
     pending := [(Idx 2, jobB)], working := [(Idx 1, jobA)],
     deferreds := [Unsettled, Unsettled], inflight := [(0, opA)], nextOp := 1\<rparr>"

text \<open>The bounds of job 2 are being measured and job 1 is pending.\<close>

definition oneMeasuringOneQueued :: manager where
  "oneMeasuringOneQueued = RenderManager\<lparr>
     pending := [(Idx 1, jobA)], working := [(Idx 2, jobB)],
     deferreds := [Unsettled, Unsettled], inflight := [(0, opB)], nextOp := 1\<rparr>"

definition sampleInfo :: pixmapInfo where
  "sampleInfo = \<lparr>pixmap_bounds = \<lparr>top = 0, left = 0, bottom = 20, right = 30\<rparr>\<rparr>"

subsection \<open>Notions used in the statements\<close>

text \<open>
  The scheduling state of a manager: the two collections the drain works on, the promises
  awaited and the counter that numbers them.
\<close>

definition core :: "manager \<Rightarrow> job obj \<times> job obj \<times> (nat \<times> operation) list \<times> nat" where
  "core this = (pending this, working this, inflight this, nextOp this)"

text \<open>
  From \<open>s\<close> to \<open>s'\<close> jobs have only moved forward: \<open>_working\<close> has gained keys, \<open>_pending\<close>
  has lost keys, promises have been added.
\<close>

definition grows :: "manager \<Rightarrow> manager \<Rightarrow> bool" where
  "grows s s' =
     (fst ` set (working s) \<subseteq> fst ` set (working s') \<and>
      fst ` set (pending s') \<subseteq> fst ` set (pending s) \<and>
      set (inflight s) \<subseteq> set (inflight s'))"

text \<open>
  The manager once promise \<open>n\<close> has settled and the \<open>finally\<close> handler has deleted the id
  from \<open>_working\<close>, before the handler calls \<open>_processWorkSet\<close>.
\<close>

definition afterCompletion :: "nat \<Rightarrow> pkey \<Rightarrow> manager \<Rightarrow> manager" where
  "afterCompletion n componentId this =
     this\<lparr>inflight := AList.delete n (inflight this),
          working := AList.delete componentId (working this)\<rparr>"

text \<open>
  The promises awaited carry numbers already given out: each is below \<open>nextOp\<close>.
\<close>

definition numbered :: "manager \<Rightarrow> bool" where
  "numbered this = list_all (\<lambda>(i, opn). i < nextOp this) (inflight this)"

text \<open>
  The call that creates the pixmap renderer of document \<open>d\<close>, made when none is cached.
\<close>

definition rendererCreation :: "nat \<Rightarrow> manager \<Rightarrow> (nat \<times> effect) list" where
  "rendererCreation d this =
     (if d \<in> set (pixmapRenderers this) then [] else [(now this, CreatePixmapRenderer d)])"

text \<open>
  A reading of the log of calls, for the debounce gate. The reader is \<open>Quiet\<close> at the start;
  it is \<open>Armed t0\<close> from a timeout set at time \<open>t0\<close> until the quiescence message of the
  drain. The log is in order when a timeout is set only while the reader is quiet, always
  with the delay \<open>CHANGE_DELAY\<close>, and when every render attempt (the log line of a render,
  a bounds query, a call of a renderer) and every quiescence message comes while the
  reader is armed and at least \<open>CHANGE_DELAY\<close> after \<open>t0\<close>.
\<close>

datatype gate = Violated | Quiet | Armed nat

definition attempt :: "gate \<Rightarrow> nat \<Rightarrow> gate" where
  "attempt g t =
     (case g of Armed t0 \<Rightarrow> if t0 + CHANGE_DELAY \<le> t then Armed t0 else Violated
      | Quiet \<Rightarrow> Violated | Violated \<Rightarrow> Violated)"

fun watch :: "gate \<Rightarrow> nat \<times> effect \<Rightarrow> gate" where
  "watch g (t, SetTimeout h d) = (if g = Quiet \<and> d = CHANGE_DELAY then Armed t else Violated)"
| "watch g (t, ConsoleLog s) =
     (if s = ''Rendering quiesced.''
      then (case attempt g t of Armed t0 \<Rightarrow> Quiet | Quiet \<Rightarrow> Violated | Violated \<Rightarrow> Violated)
      else g)"
| "watch g (t, ConsoleLogLayer n) = attempt g t"
| "watch g (t, GetPixmap d l b) = attempt g t"
| "watch g (t, RendererRender d l c b) = attempt g t"
| "watch g (t, CreatePixmapRenderer d) = g"
| "watch g (t, ConsoleWarn n s) = g"
| "watch g (t, DocumentOff s) = g"

definition debounced :: "(nat \<times> effect) list \<Rightarrow> bool" where
  "debounced tr = (foldl watch Quiet tr \<noteq> Violated)"

text \<open>
  What holds of the timer of a manager in every execution from a new manager: it is idle;
  with no timeout outstanding the timer field is clear exactly when the reader of the log
  is quiet; an outstanding timeout is the only one, the timer field holds its handle, its
  delay is \<open>CHANGE_DELAY\<close> and the reader is armed since the time it was set.
\<close>

definition gateInv :: "manager \<Rightarrow> bool" where
  "gateInv s =
     (idle s \<and>
      (case timers s of
         [] \<Rightarrow> (case foldl watch Quiet (trace s) of
                  Quiet \<Rightarrow> changeTimer s = None
                | Armed t0 \<Rightarrow> changeTimer s \<noteq> None
                | Violated \<Rightarrow> False)
       | [t] \<Rightarrow> foldl watch Quiet (trace s) = Armed (idleStart t) \<and>
                changeTimer s = Some (handle t) \<and> idleTimeout t = CHANGE_DELAY
       | _ \<Rightarrow> False))"

section \<open>Properties\<close>

subsection \<open>Objects and the drain\<close>

declare processWorkSet.simps [simp del]

lemma Object_keys_Nil [simp]: "Object_keys [] = []"
  by (simp add: Object_keys_def)

lemma length_idxs_names: "length (idxs ks) + length (names ks) = length ks"
  by (induction ks rule: idxs.induct) auto

lemma length_Object_keys [simp]: "length (Object_keys ob) = length ob"
  using length_idxs_names [of "map fst ob"] by (simp add: Object_keys_def)

lemma processWorkSet_empty:
  "pending this = [] \<Longrightarrow>
   processWorkSet m this =
     (if m = 0 then this else (emit (ConsoleLog ''Rendering quiesced.'') this)\<lparr>changeTimer := None\<rparr>)"
  by (subst processWorkSet.simps) simp

text \<open>
  Whatever a launch and the quiescent branch leave alone, the whole drain leaves alone.
\<close>

lemma processWorkSet_frame:
  assumes L: "\<And>k jb s. f (launch k jb s) = f s"
    and Q: "\<And>s. f ((emit (ConsoleLog ''Rendering quiesced.'') s)\<lparr>changeTimer := None\<rparr>) = f s"
  shows "f (processWorkSet m this) = f this"
proof (induction m this rule: processWorkSet.induct)
  case (1 m this)
  show ?case
  proof (cases "m \<le> length (Object_keys (pending this))")
    case True
    then show ?thesis by (subst processWorkSet.simps) simp
  next
    case False
    show ?thesis
    proof (cases "Object_keys (pending this)")
      case Nil
      with False show ?thesis by (subst processWorkSet.simps) (simp add: Q)
    next
      case (Cons k rest)
      show ?thesis
      proof (cases "map_of (pending this) k")
        case None
        with False Cons show ?thesis by (subst processWorkSet.simps) simp
      next
        case (Some jb)
        have "f (processWorkSet m (launch k jb this)) = f (launch k jb this)"
          using "1.IH" [OF refl _ Cons Some] False by simp
        with False Cons Some show ?thesis
          by (subst processWorkSet.simps) (simp add: L)
      qed
    qed
  qed
qed

lemma launch_fields:
  "workSet (launch k jb s) = workSet s"
  "deferreds (launch k jb s) = deferreds s"
  "timers (launch k jb s) = timers s"
  "now (launch k jb s) = now s"
  "nextTimer (launch k jb s) = nextTimer s"
  "theDocument (launch k jb s) = theDocument s"
  by (simp_all add: launch_def renderComponent_def getPixmapRenderer_def emit_def Let_def
        split: prod.splits)

lemma processWorkSet_fields:
  "workSet (processWorkSet m s) = workSet s"
  "deferreds (processWorkSet m s) = deferreds s"
  "timers (processWorkSet m s) = timers s"
  "now (processWorkSet m s) = now s"
  "nextTimer (processWorkSet m s) = nextTimer s"
  "theDocument (processWorkSet m s) = theDocument s"
  by (rule processWorkSet_frame; simp add: launch_fields emit_def)+

subsection \<open>Executions from a new manager\<close>

lemma run_Nil [simp]: "run m s [] = s"
  by (simp add: run_def)

lemma run_snoc [simp]: "run m s (es @ [e]) = step m (run m s es) e"
  by (simp add: run_def)

lemma idle_render: "idle s \<Longrightarrow> idle (snd (render s d l c k))"
  by (simp add: idle_def render_def emit_def Let_def split: option.splits)

lemma cancel_untracked:
  "\<not> hasOwnProperty (pending s) k \<Longrightarrow> \<not> hasOwnProperty (working s) k \<Longrightarrow>
   cancel s k = (Inl TypeError, s)"
  by (simp add: cancel_def)

lemma idle_cancel: "idle s \<Longrightarrow> cancel s k = (Inl TypeError, s)"
  by (simp add: idle_def cancel_untracked hasOwnProperty_def)

lemma idle_finish: "idle s \<Longrightarrow> idle (snd (finish s))"
  by (simp add: idle_def finish_def emit_def Let_def split: option.splits)

lemma idle_processWorkSet: "idle s \<Longrightarrow> idle (processWorkSet m s)"
  by (simp add: idle_def processWorkSet_empty emit_def)

lemma idle_timeoutFires: "idle s \<Longrightarrow> idle (timeoutFires m s h)"
proof -
  assume i: "idle s"
  have "idle (s\<lparr>timers := ts\<rparr>)" for ts using i by (simp add: idle_def)
  then show ?thesis using i
    by (simp add: timeoutFires_def idle_processWorkSet split: option.splits)
qed

lemma idle_settles:
  "idle s \<Longrightarrow> pixmapSettles m s n po = s"
  "idle s \<Longrightarrow> renderSettles m s n ro = s"
  by (simp_all add: idle_def pixmapSettles_def renderSettles_def)

lemma idle_step: "idle s \<Longrightarrow> idle (step m s e)"
  by (cases e) (simp_all add: idle_render idle_cancel idle_finish idle_timeoutFires idle_settles,
      simp add: idle_def)

text \<open>
  No method writes \<open>_pending\<close>: in every execution that starts from a new manager the
  manager stays idle.
\<close>

lemma idle_run: "idle (run m RenderManager es)"
proof (induction es rule: rev_induct)
  case Nil
  show ?case by (simp add: idle_def RenderManager_def)
next
  case (snoc e es)
  then show ?case by (simp add: idle_step)
qed

lemma workSet_step:
  "e \<noteq> CallFinish \<Longrightarrow> workSet s = None \<Longrightarrow> workSet (step m s e) = None"
  by (cases e)
     (simp_all add: render_def cancel_def reject_def timeoutFires_def pixmapSettles_def
        renderSettles_def finallyHandler_def failHandler_def renderWithBounds_def
        getPixmapRenderer_def emit_def processWorkSet_fields Let_def
        split: option.splits which.splits outcome.splits)

subsection \<open>Submission before \<open>finish\<close>\<close>

text \<open>
  Claim C2. On a manager on which \<open>finish\<close> has never been called, whatever else has
  happened to it since it was constructed, the work set is still \<open>null\<close> and every call of
  \<open>render\<close> throws a TypeError and leaves the manager as it was: no job is recorded. Only
  \<open>finish\<close> gives the work set a value, the empty object.
\<close>

theorem render_before_finish_throws:
  assumes "CallFinish \<notin> set es"
  shows "workSet (run MAX_JOBS RenderManager es) = None \<and>
         render (run MAX_JOBS RenderManager es) doc lyr cpt componentId =
           (Inl TypeError, run MAX_JOBS RenderManager es) \<and>
         workSet (snd (finish (run MAX_JOBS RenderManager es))) = Some []"
proof -
  have "workSet (run MAX_JOBS RenderManager es) = None" using assms
  proof (induction es rule: rev_induct)
    case Nil
    show ?case by (simp add: RenderManager_def)
  next
    case (snoc e es)
    then show ?case by (auto simp: workSet_step)
  qed
  then show ?thesis by (simp add: render_def finish_def emit_def Let_def split: option.splits)
qed

theorem render_before_finish_throws_witness:
  "CallFinish \<notin> set [CallCancel (Idx 1), Elapse 5] \<and>
   render (run 2 RenderManager [CallCancel (Idx 1), Elapse 5]) docA layer1 rasterComponent (Idx 1) =
     (Inl TypeError, run 2 RenderManager [CallCancel (Idx 1), Elapse 5])"
  using render_before_finish_throws
          [of "[CallCancel (Idx 1), Elapse 5]" 2 docA layer1 rasterComponent "Idx 1"]
  by simp

subsection \<open>Duplicate submission\<close>

text \<open>
  Claim C5. When the work set already has an entry for the component id, \<open>render\<close> throws
  an error to its caller and leaves the manager as it was: no second job is made. In
  particular, after a submission that returned a promise, a second submission under the
  same id throws, whatever document, layer and component it names.
\<close>

theorem render_duplicate_throws:
  "(workSet this = Some ws \<and> hasOwnProperty ws componentId \<longrightarrow>
      render this doc lyr cpt componentId =
        (Inl (Error ''Render already pending for component: %d''), this)) \<and>
   (fst (render this doc lyr cpt componentId) = Inr p \<longrightarrow>
      render (snd (render this doc lyr cpt componentId)) doc' lyr' cpt' componentId =
        (Inl (Error ''Render already pending for component: %d''),
         snd (render this doc lyr cpt componentId)))"
  by (auto simp: render_def hasOwnProperty_def emit_def Let_def update_conv'
        split: option.splits if_splits)

theorem render_duplicate_throws_witness:
  "workSet (snd (render (snd (finish RenderManager)) docA layer1 vectorComponent (Idx 1))) =
     Some [(Idx 1, jobA)] \<and>
   hasOwnProperty [(Idx 1, jobA)] (Idx 1) \<and>
   render (snd (render (snd (finish RenderManager)) docA layer1 vectorComponent (Idx 1)))
       docA layer2 rasterComponent (Idx 1) =
     (Inl (Error ''Render already pending for component: %d''),
      snd (render (snd (finish RenderManager)) docA layer1 vectorComponent (Idx 1))) \<and>
   fst (render (snd (finish RenderManager)) docA layer1 vectorComponent (Idx 1)) = Inr 0"
proof -
  let ?s = "snd (finish RenderManager)"
  let ?s1 = "snd (render ?s docA layer1 vectorComponent (Idx 1))"
  have a: "workSet ?s1 = Some [(Idx 1, jobA)]" by code_simp
  have b: "hasOwnProperty [(Idx 1, jobA)] (Idx 1)" by code_simp
  have c: "fst (render ?s docA layer1 vectorComponent (Idx 1)) = Inr 0" by code_simp
  from a b c
    render_duplicate_throws [of ?s1 "[(Idx 1, jobA)]" "Idx 1" docA layer2 rasterComponent]
    render_duplicate_throws [of ?s _ "Idx 1" docA layer1 vectorComponent 0 docA layer2 rasterComponent]
  show ?thesis by blast
qed

subsection \<open>Cancellation\<close>

text \<open>
  Claim C10. The claim asks for a defined outcome when the id has no tracked job. The
  source has no branch for that case: when the id is a key of neither \<open>_pending\<close> nor
  \<open>_working\<close> the variable \<open>set\<close> is left undefined and indexing it throws a TypeError.
\<close>

theorem cancel_untracked_throws:
  assumes "\<not> hasOwnProperty (pending this) componentId"
    and "\<not> hasOwnProperty (working this) componentId"
  shows "cancel this componentId = (Inl TypeError, this)"
  using assms by (simp add: cancel_def)

theorem cancel_untracked_throws_witness:
  "\<not> hasOwnProperty (pending RenderManager) (Idx 1) \<and>
   \<not> hasOwnProperty (working RenderManager) (Idx 1) \<and>
   cancel RenderManager (Idx 1) = (Inl TypeError, RenderManager)"
proof -
  have a: "\<not> hasOwnProperty (pending RenderManager) (Idx 1)"
    by (simp add: RenderManager_def hasOwnProperty_def)
  have b: "\<not> hasOwnProperty (working RenderManager) (Idx 1)"
    by (simp add: RenderManager_def hasOwnProperty_def)
  from a b cancel_untracked_throws [OF a b] show ?thesis by simp
qed

text \<open>
  On a job that is in \<open>_pending\<close> or in \<open>_working\<close>, \<open>cancel\<close> does remove the record and
  reject its deferred.
\<close>

lemma cancel_pending:
  "map_of (pending s) k = Some jb \<Longrightarrow>
   cancel s k = (Inr (), reject (deferred jb) (s\<lparr>pending := AList.delete k (pending s)\<rparr>))"
  by (simp add: cancel_def hasOwnProperty_def)

lemma cancel_working:
  "map_of (pending s) k = None \<Longrightarrow> map_of (working s) k = Some jb \<Longrightarrow>
   cancel s k = (Inr (), reject (deferred jb) (s\<lparr>working := AList.delete k (working s)\<rparr>))"
  by (simp add: cancel_def hasOwnProperty_def)

text \<open>
  In an execution from a new manager no job is ever in \<open>_pending\<close> or \<open>_working\<close>, so there
  every call of \<open>cancel\<close> throws.
\<close>

lemma cancel_always_throws:
  "cancel (run m RenderManager es) k = (Inl TypeError, run m RenderManager es)"
  by (rule idle_cancel [OF idle_run])

text \<open>
  Claim C6. A job that has been submitted is recorded in \<open>_workSet\<close>, where \<open>cancel\<close> does
  not look: cancelling it throws a TypeError, the record stays and its deferred stays
  unsettled.
\<close>

theorem cancel_of_submitted_job_throws:
  "workSet (run 2 RenderManager [CallFinish, CallRender docA layer1 vectorComponent (Idx 1)]) =
     Some [(Idx 1, jobA)] \<and>
   cancel (run 2 RenderManager [CallFinish, CallRender docA layer1 vectorComponent (Idx 1)]) (Idx 1) =
     (Inl TypeError, run 2 RenderManager [CallFinish, CallRender docA layer1 vectorComponent (Idx 1)]) \<and>
   deferreds (run 2 RenderManager [CallFinish, CallRender docA layer1 vectorComponent (Idx 1)]) =
     [Unsettled]"
  by code_simp

subsection \<open>Dispatch of submitted jobs\<close>

text \<open>
  Claim C1. With \<open>MAX_JOBS = 2\<close>, after \<open>finish\<close>, the submission of three components, the
  quiet period and the timeout, the three jobs are in \<open>_workSet\<close> and the drain, which reads
  \<open>_pending\<close>, has found nothing: no job is running, no render was begun, the log holds the
  timeout and the quiescence message only. And had the three jobs been in \<open>_pending\<close>, the
  drain would have returned at once, three being no less than \<open>MAX_JOBS\<close>.
\<close>

theorem submitted_jobs_not_dispatched:
  "workSet (run 2 RenderManager threeSubmissions) =
     Some [(Idx 1, jobA), (Idx 2, jobB), (Idx 3, jobC)] \<and>
   pending (run 2 RenderManager threeSubmissions) = [] \<and>
   working (run 2 RenderManager threeSubmissions) = [] \<and>
   inflight (run 2 RenderManager threeSubmissions) = [] \<and>
   timers (run 2 RenderManager threeSubmissions) = [] \<and>
   trace (run 2 RenderManager threeSubmissions) =
     [(0, SetTimeout 1 1000), (1000, ConsoleLog ''Rendering quiesced.'')] \<and>
   processWorkSet 2 threeQueued = threeQueued"
  by code_simp

subsection \<open>The concurrency cap\<close>


subsection \<open>The completion handle\<close>

text \<open>
  No callback settles a deferred: the drain and the settling of either promise leave all
  deferreds as they are. Only \<open>cancel\<close> rejects one.
\<close>

lemma settles_deferreds:
  "deferreds (renderSettles m s n ro) = deferreds s"
  "deferreds (pixmapSettles m s n po) = deferreds s"
  by (simp_all add: renderSettles_def pixmapSettles_def finallyHandler_def failHandler_def
        renderWithBounds_def getPixmapRenderer_def emit_def processWorkSet_fields Let_def
        split: option.splits outcome.splits)

lemma unsettled_step:
  assumes i: "idle s" and u: "deferreds s = replicate (length (deferreds s)) Unsettled"
  shows "deferreds (step m s e) = replicate (length (deferreds (step m s e))) Unsettled"
proof (cases e)
  case (CallRender d l c k)
  have "replicate (length (deferreds s)) Unsettled @ [Unsettled] =
        replicate (Suc (length (deferreds s))) Unsettled"
    by (simp add: replicate_append_same)
  then show ?thesis using CallRender u
    by (auto simp: render_def emit_def Let_def split: option.splits)
next
  case (CallCancel k)
  then show ?thesis using i u by (simp add: idle_cancel)
next
  case CallFinish
  then show ?thesis using u by (simp add: finish_def emit_def Let_def split: option.splits)
next
  case (Elapse d)
  then show ?thesis using u by simp
next
  case (TimeoutFires h)
  then show ?thesis using u
    by (simp add: timeoutFires_def processWorkSet_fields split: option.splits)
next
  case (PixmapSettles n po)
  then show ?thesis using u by (simp add: settles_deferreds)
next
  case (RenderSettles n ro)
  then show ?thesis using u by (simp add: settles_deferreds)
qed

text \<open>
  Claim C3. The claim has the handle of a submitted job resolved when its render
  completes. In the source no handle is ever settled. On every manager the drain and the
  handlers run when a promise settles, resolved or rejected, leave every deferred as it
  is. And in every execution from a new manager every deferred made by \<open>render\<close> is
  unsettled: so after \<open>finish\<close>, one submission, the quiet period and the timeout, the
  job is in \<open>_workSet\<close>, nothing is running or awaited, no timeout is left, and the
  deferred whose promise \<open>render\<close> returned is unsettled.
\<close>

theorem handles_never_settled:
  "deferreds (renderSettles MAX_JOBS this n ro) = deferreds this \<and>
   deferreds (pixmapSettles MAX_JOBS this n po) = deferreds this \<and>
   deferreds (processWorkSet MAX_JOBS this) = deferreds this \<and>
   deferreds (run MAX_JOBS RenderManager es) =
     replicate (length (deferreds (run MAX_JOBS RenderManager es))) Unsettled \<and>
   fst (render (snd (finish RenderManager)) docA layer1 vectorComponent (Idx 1)) = Inr 0 \<and>
   workSet (run 2 RenderManager oneSubmission) = Some [(Idx 1, jobA)] \<and>
   deferreds (run 2 RenderManager oneSubmission) = [Unsettled] \<and>
   working (run 2 RenderManager oneSubmission) = [] \<and>
   inflight (run 2 RenderManager oneSubmission) = [] \<and>
   timers (run 2 RenderManager oneSubmission) = []"
proof -
  have "deferreds (run MAX_JOBS RenderManager es) =
     replicate (length (deferreds (run MAX_JOBS RenderManager es))) Unsettled"
  proof (induction es rule: rev_induct)
    case Nil
    show ?case by (simp add: RenderManager_def)
  next
    case (snoc e es)
    show ?case using unsettled_step [OF idle_run snoc] by simp
  qed
  moreover have "fst (render (snd (finish RenderManager)) docA layer1 vectorComponent (Idx 1)) = Inr 0"
    by code_simp
  moreover have "workSet (run 2 RenderManager oneSubmission) = Some [(Idx 1, jobA)]" by code_simp
  moreover have "deferreds (run 2 RenderManager oneSubmission) = [Unsettled]" by code_simp
  moreover have "working (run 2 RenderManager oneSubmission) = []" by code_simp
  moreover have "inflight (run 2 RenderManager oneSubmission) = []" by code_simp
  moreover have "timers (run 2 RenderManager oneSubmission) = []" by code_simp
  ultimately show ?thesis by (simp add: settles_deferreds processWorkSet_fields)
qed

subsection \<open>The render path\<close>

text \<open>
  Claim C8. When a job is promoted, the calls made depend on the extension of its
  component. For \<open>svg\<close>: the log line, the creation of the pixmap renderer of the job's
  document if there is none yet, and the call of that renderer with no bounds; no bounds
  query; the promise awaited is the renderer's. Otherwise: the log line and the bounds
  query \<open>getPixmap\<close> with \<open>boundsOnly: true\<close>, whose promise is awaited; when it resolves, the
  pixmap renderer of the document is called with the bounds of the result.
\<close>

theorem render_path_by_kind:
  "(extension (component jb) = ''svg'' \<longrightarrow>
      trace (launch componentId jb this) =
        trace this @ [(now this, ConsoleLogLayer (layer_id (layer jb)))] @
        rendererCreation (doc_id (document jb)) this @
        [(now this, RendererRender (doc_id (document jb)) (layer jb) (component jb) None)] \<and>
      inflight (launch componentId jb this) =
        inflight this @
        [(nextOp this, \<lparr>op_stage = Rendering, op_componentId = componentId,
            op_document = document jb, op_layer = layer jb, op_component = component jb\<rparr>)]) \<and>
   (extension (component jb) \<noteq> ''svg'' \<longrightarrow>
      trace (launch componentId jb this) =
        trace this @ [(now this, ConsoleLogLayer (layer_id (layer jb))),
          (now this, GetPixmap (doc_id (document jb)) (layer_id (layer jb)) True)] \<and>
      inflight (launch componentId jb this) =
        inflight this @
        [(nextOp this, \<lparr>op_stage = Measuring, op_componentId = componentId,
            op_document = document jb, op_layer = layer jb, op_component = component jb\<rparr>)]) \<and>
   (map_of (inflight this) n = Some opn \<and> op_stage opn = Measuring \<longrightarrow>
      trace (pixmapSettles MAX_JOBS this n (Resolved info)) =
        trace this @ rendererCreation (doc_id (op_document opn)) this @
        [(now this, RendererRender (doc_id (op_document opn)) (op_layer opn) (op_component opn)
            (Some (pixmap_bounds info)))] \<and>
      map_of (inflight (pixmapSettles MAX_JOBS this n (Resolved info))) n =
        Some (opn\<lparr>op_stage := Rendering\<rparr>))"
  by (simp add: launch_def renderComponent_def getPixmapRenderer_def emit_def Let_def
        rendererCreation_def pixmapSettles_def renderWithBounds_def update_conv')

theorem render_path_by_kind_witness:
  "extension (component jobA) = ''svg'' \<and>
   trace (launch (Idx 1) jobA RenderManager) =
     trace RenderManager @ [(now RenderManager, ConsoleLogLayer (layer_id (layer jobA)))] @
     rendererCreation (doc_id (document jobA)) RenderManager @
     [(now RenderManager, RendererRender (doc_id (document jobA)) (layer jobA) (component jobA) None)] \<and>
   extension (component jobB) \<noteq> ''svg'' \<and>
   trace (launch (Idx 2) jobB RenderManager) =
     trace RenderManager @ [(now RenderManager, ConsoleLogLayer (layer_id (layer jobB))),
       (now RenderManager, GetPixmap (doc_id (document jobB)) (layer_id (layer jobB)) True)] \<and>
   map_of (inflight oneMeasuringOneQueued) 0 = Some opB \<and> op_stage opB = Measuring \<and>
   trace (pixmapSettles 2 oneMeasuringOneQueued 0 (Resolved sampleInfo)) =
     trace oneMeasuringOneQueued @
     rendererCreation (doc_id (op_document opB)) oneMeasuringOneQueued @
     [(now oneMeasuringOneQueued,
       RendererRender (doc_id (op_document opB)) (op_layer opB) (op_component opB)
         (Some (pixmap_bounds sampleInfo)))]"
proof -
  have a: "extension (component jobA) = ''svg''" by code_simp
  have b: "extension (component jobB) \<noteq> ''svg''" by code_simp
  have c: "map_of (inflight oneMeasuringOneQueued) 0 = Some opB" by code_simp
  have d: "op_stage opB = Measuring" by code_simp
  from a b c d
    render_path_by_kind [where jb = jobA and componentId = "Idx 1" and this = RenderManager]
    render_path_by_kind [where jb = jobB and componentId = "Idx 2" and this = RenderManager]
    render_path_by_kind [where this = oneMeasuringOneQueued and n = 0 and opn = opB
      and MAX_JOBS = 2 and info = sampleInfo]
  show ?thesis by blast
qed

subsection \<open>Completion of a render\<close>

lemma core_launch: "core s = core s' \<Longrightarrow> core (launch k jb s) = core (launch k jb s')"
  by (simp add: core_def launch_def renderComponent_def getPixmapRenderer_def emit_def Let_def
        split: prod.splits)

lemma core_processWorkSet:
  "core s = core s' \<Longrightarrow> core (processWorkSet m s) = core (processWorkSet m s')"
proof (induction m s arbitrary: s' rule: processWorkSet.induct)
  case (1 m this)
  have p: "pending s' = pending this" using "1.prems" by (simp add: core_def)
  show ?case
  proof (cases "m \<le> length (Object_keys (pending this))")
    case True
    then show ?thesis using "1.prems" p
      by (subst processWorkSet.simps, subst (2) processWorkSet.simps) simp
  next
    case False
    show ?thesis
    proof (cases "Object_keys (pending this)")
      case Nil
      with False show ?thesis using "1.prems" p
        by (subst processWorkSet.simps, subst (2) processWorkSet.simps)
           (simp add: core_def emit_def)
    next
      case (Cons k rest)
      show ?thesis
      proof (cases "map_of (pending this) k")
        case None
        with False Cons show ?thesis using "1.prems" p
          by (subst processWorkSet.simps, subst (2) processWorkSet.simps) simp
      next
        case (Some jb)
        have "core (processWorkSet m (launch k jb this)) = core (processWorkSet m (launch k jb s'))"
          using "1.IH" [OF refl _ Cons Some core_launch [OF "1.prems"]] False by simp
        with False Cons Some p show ?thesis
          by (subst processWorkSet.simps, subst (2) processWorkSet.simps) simp
      qed
    qed
  qed
qed

lemma set_idxs_names: "Idx ` set (idxs ks) \<union> Name ` set (names ks) = set ks"
  by (induction ks rule: idxs.induct) auto

lemma set_Object_keys: "set (Object_keys ob) = fst ` set ob"
  using set_idxs_names [of "map fst ob"] by (simp add: Object_keys_def)

lemma first_key_has_value:
  "Object_keys ob = k # rest \<Longrightarrow> \<exists>v. map_of ob k = Some v"
proof -
  assume "Object_keys ob = k # rest"
  then have "k \<in> set (Object_keys ob)" by simp
  then have "k \<in> fst ` set ob" by (simp add: set_Object_keys)
  then show ?thesis by (metis weak_map_of_SomeI map_of_eq_None_iff not_None_eq)
qed

lemma grows_launch: "grows s (launch k jb s)"
  using dom_delete_subset [of k "pending s"]
  by (auto simp: grows_def launch_def renderComponent_def getPixmapRenderer_def emit_def Let_def
        dom_update split: prod.splits)

lemma grows_trans: "grows a b \<Longrightarrow> grows b c \<Longrightarrow> grows a c"
  unfolding grows_def by (meson subset_trans)

lemma grows_processWorkSet: "grows s (processWorkSet m s)"
proof (induction m s rule: processWorkSet.induct)
  case (1 m this)
  show ?case
  proof (cases "m \<le> length (Object_keys (pending this))")
    case True
    then show ?thesis by (subst processWorkSet.simps) (simp add: grows_def)
  next
    case False
    show ?thesis
    proof (cases "Object_keys (pending this)")
      case Nil
      with False show ?thesis by (subst processWorkSet.simps) (simp add: grows_def emit_def)
    next
      case (Cons k rest)
      show ?thesis
      proof (cases "map_of (pending this) k")
        case None
        with False Cons show ?thesis by (subst processWorkSet.simps) (simp add: grows_def)
      next
        case (Some jb)
        have "grows (launch k jb this) (processWorkSet m (launch k jb this))"
          using "1.IH" [OF refl _ Cons Some] False by simp
        then have "grows this (processWorkSet m (launch k jb this))"
          using grows_launch grows_trans by blast
        with False Cons Some show ?thesis
          by (subst processWorkSet.simps) simp
      qed
    qed
  qed
qed

text \<open>The drain promotes the first key of \<open>_pending\<close> when fewer than the cap are pending.\<close>

lemma processWorkSet_promotes_first:
  assumes keys: "Object_keys (pending s) = y # rest" and cap: "length (pending s) < m"
  shows "hasOwnProperty (working (processWorkSet m s)) y \<and>
         \<not> hasOwnProperty (pending (processWorkSet m s)) y \<and>
         y \<in> op_componentId ` snd ` set (inflight (processWorkSet m s))"
proof -
  obtain jb where jb: "map_of (pending s) y = Some jb"
    using first_key_has_value [OF keys] by blast
  let ?l = "launch y jb s"
  have "length (Object_keys (pending s)) = length (pending s)" by simp
  then have len: "Suc (length rest) = length (pending s)" using keys by simp
  have unfold: "processWorkSet m s = processWorkSet m ?l"
    using keys cap jb len by (subst processWorkSet.simps) simp
  have w: "y \<in> fst ` set (working ?l)"
    by (simp add: launch_def renderComponent_def getPixmapRenderer_def emit_def Let_def
          dom_update split: prod.splits)
  have p: "y \<notin> fst ` set (pending ?l)"
    using delete_notin_dom [of y "pending s"]
    by (simp add: launch_def renderComponent_def getPixmapRenderer_def emit_def Let_def
          split: prod.splits)
  have i: "y \<in> op_componentId ` snd ` set (inflight ?l)"
    by (simp add: launch_def renderComponent_def getPixmapRenderer_def emit_def Let_def
          image_iff split: prod.splits)
  have g: "grows ?l (processWorkSet m ?l)" by (rule grows_processWorkSet)
  have "y \<in> fst ` set (working (processWorkSet m ?l))" using g w by (auto simp: grows_def)
  moreover have "y \<notin> fst ` set (pending (processWorkSet m ?l))" using g p by (auto simp: grows_def)
  moreover have "set (inflight ?l) \<subseteq> set (inflight (processWorkSet m ?l))"
    using g by (simp add: grows_def)
  then have "op_componentId ` snd ` set (inflight ?l) \<subseteq>
             op_componentId ` snd ` set (inflight (processWorkSet m ?l))"
    by (intro image_mono)
  then have "y \<in> op_componentId ` snd ` set (inflight (processWorkSet m ?l))"
    using i by blast
  ultimately show ?thesis
    unfolding unfold hasOwnProperty_def by (simp add: map_of_eq_None_iff)
qed

text \<open>What a launch and the quiescent branch preserve, the whole drain preserves.\<close>

lemma processWorkSet_invariant:
  assumes L: "\<And>k jb s. P s \<Longrightarrow> P (launch k jb s)"
    and Q: "\<And>s. P s \<Longrightarrow> P ((emit (ConsoleLog ''Rendering quiesced.'') s)\<lparr>changeTimer := None\<rparr>)"
  shows "P this \<Longrightarrow> P (processWorkSet m this)"
proof (induction m this rule: processWorkSet.induct)
  case (1 m this)
  show ?case
  proof (cases "m \<le> length (Object_keys (pending this))")
    case True
    then show ?thesis using "1.prems" by (subst processWorkSet.simps) simp
  next
    case False
    show ?thesis
    proof (cases "Object_keys (pending this)")
      case Nil
      with False show ?thesis using "1.prems" by (subst processWorkSet.simps) (simp add: Q)
    next
      case (Cons k rest)
      show ?thesis
      proof (cases "map_of (pending this) k")
        case None
        with False Cons show ?thesis using "1.prems" by (subst processWorkSet.simps) simp
      next
        case (Some jb)
        have "P (processWorkSet m (launch k jb this))"
          using "1.IH" [OF refl _ Cons Some L [OF "1.prems"]] False by simp
        with False Cons Some show ?thesis
          by (subst processWorkSet.simps) simp
      qed
    qed
  qed
qed

lemma processWorkSet_settled:
  assumes "n \<notin> fst ` set (inflight s)" and "n < nextOp s"
  shows "n \<notin> fst ` set (inflight (processWorkSet m s))"
proof -
  have "n \<notin> fst ` set (inflight (processWorkSet m s)) \<and> n < nextOp (processWorkSet m s)"
  proof (rule processWorkSet_invariant
      [where P = "\<lambda>s. n \<notin> fst ` set (inflight s) \<and> n < nextOp s"])
    show "n \<notin> fst ` set (inflight s) \<and> n < nextOp s" using assms by simp
  next
    fix k jb and s :: manager
    assume "n \<notin> fst ` set (inflight s) \<and> n < nextOp s"
    then show "n \<notin> fst ` set (inflight (launch k jb s)) \<and> n < nextOp (launch k jb s)"
      by (auto simp: launch_def renderComponent_def getPixmapRenderer_def emit_def Let_def
            split: prod.splits)
  next
    fix s :: manager
    assume "n \<notin> fst ` set (inflight s) \<and> n < nextOp s"
    then show "n \<notin> fst ` set (inflight ((emit (ConsoleLog ''Rendering quiesced.'') s)\<lparr>changeTimer := None\<rparr>)) \<and>
        n < nextOp ((emit (ConsoleLog ''Rendering quiesced.'') s)\<lparr>changeTimer := None\<rparr>)"
      by (simp add: emit_def)
  qed
  then show ?thesis by simp
qed

text \<open>A promise settles once: settling it again changes nothing.\<close>

lemma settles_once:
  assumes op: "map_of (inflight this) n = Some opn" and st: "op_stage opn = Rendering"
    and num: "numbered this"
  shows "renderSettles m (renderSettles m this n out) n out' = renderSettles m this n out"
proof -
  have lt: "n < nextOp this"
    using op num map_of_SomeD [OF op] by (auto simp: numbered_def list_all_iff)
  have gone: "n \<notin> fst ` set (AList.delete n (inflight this))"
    by (rule delete_notin_dom)
  have "n \<notin> fst ` set (inflight (renderSettles m this n out))"
  proof (cases out)
    case (Resolved r)
    then show ?thesis using op st
      by (simp add: renderSettles_def finallyHandler_def)
         (rule processWorkSet_settled, simp_all add: gone lt)
  next
    case (Failed e)
    then show ?thesis using op st
      by (simp add: renderSettles_def finallyHandler_def failHandler_def emit_def)
         (rule processWorkSet_settled, simp_all add: gone lt)
  qed
  then have "map_of (inflight (renderSettles m this n out)) n = None"
    by (simp add: map_of_eq_None_iff)
  then show ?thesis by (simp add: renderSettles_def [of m "renderSettles m this n out"])
qed

text \<open>
  Claim C9. Let promise \<open>n\<close> belong to a started job. When the render resolves, and when it
  fails (then after the warning), the id of the job is deleted from \<open>_working\<close> and the
  drain is called on the manager so obtained. The same holds when the bounds query of a
  non-vector job fails. The handlers run once: with the promises numbered as the drain
  numbers them, settling the promise again changes nothing, so the id is deleted once.
  The scheduling state after a failure is the one after a success,
  so a failure prevents no promotion that a success would have made; and when \<open>_pending\<close>
  holds fewer jobs than \<open>MAX_JOBS\<close>, its first job is promoted after the failure: it is in
  \<open>_working\<close>, no longer in \<open>_pending\<close>, and a promise is awaited for it.
\<close>

theorem completion_always_cleans_up:
  assumes op: "map_of (inflight this) n = Some opn"
  shows
   "(op_stage opn = Rendering \<longrightarrow>
       renderSettles MAX_JOBS this n (Resolved r) =
         processWorkSet MAX_JOBS (afterCompletion n (op_componentId opn) this) \<and>
       renderSettles MAX_JOBS this n (Failed e) =
         processWorkSet MAX_JOBS (afterCompletion n (op_componentId opn)
           (emit (ConsoleWarn (layer_id (op_layer opn)) e) this)) \<and>
       core (renderSettles MAX_JOBS this n (Failed e)) =
         core (renderSettles MAX_JOBS this n (Resolved r)) \<and>
       (numbered this \<longrightarrow>
          renderSettles MAX_JOBS (renderSettles MAX_JOBS this n out) n out' =
            renderSettles MAX_JOBS this n out) \<and>
       (Object_keys (pending this) = y # rest \<and> length (pending this) < MAX_JOBS \<longrightarrow>
          hasOwnProperty (working (renderSettles MAX_JOBS this n (Failed e))) y \<and>
          \<not> hasOwnProperty (pending (renderSettles MAX_JOBS this n (Failed e))) y \<and>
          y \<in> op_componentId ` snd ` set (inflight (renderSettles MAX_JOBS this n (Failed e))))) \<and>
    (op_stage opn = Measuring \<longrightarrow>
       pixmapSettles MAX_JOBS this n (Failed e) =
         processWorkSet MAX_JOBS (afterCompletion n (op_componentId opn)
           (emit (ConsoleWarn (layer_id (op_layer opn)) e) this)))"
proof -
  let ?ok = "afterCompletion n (op_componentId opn) this"
  let ?ko = "afterCompletion n (op_componentId opn)
               (emit (ConsoleWarn (layer_id (op_layer opn)) e) this)"
  have ok: "op_stage opn = Rendering \<Longrightarrow>
            renderSettles MAX_JOBS this n (Resolved r) = processWorkSet MAX_JOBS ?ok"
    using op by (simp add: renderSettles_def finallyHandler_def afterCompletion_def)
  have rec: "(failHandler (op_layer opn) e (this\<lparr>inflight := AList.delete n (inflight this)\<rparr>))
                \<lparr>working := AList.delete (op_componentId opn) (working this)\<rparr> = ?ko"
    by (simp add: failHandler_def afterCompletion_def emit_def)
  have ko: "op_stage opn = Rendering \<Longrightarrow>
            renderSettles MAX_JOBS this n (Failed e) = processWorkSet MAX_JOBS ?ko"
    using op rec by (simp add: renderSettles_def finallyHandler_def failHandler_def emit_def)
  have ko': "op_stage opn = Measuring \<Longrightarrow>
            pixmapSettles MAX_JOBS this n (Failed e) = processWorkSet MAX_JOBS ?ko"
    using op rec by (simp add: pixmapSettles_def finallyHandler_def failHandler_def emit_def)
  have same: "core ?ko = core ?ok"
    by (simp add: core_def afterCompletion_def emit_def)
  have c: "core (processWorkSet MAX_JOBS ?ko) = core (processWorkSet MAX_JOBS ?ok)"
    by (rule core_processWorkSet [OF same])
  have pk: "pending ?ko = pending this"
    by (simp add: afterCompletion_def emit_def)
  have sib: "Object_keys (pending this) = y # rest \<Longrightarrow> length (pending this) < MAX_JOBS \<Longrightarrow>
      hasOwnProperty (working (processWorkSet MAX_JOBS ?ko)) y \<and>
      \<not> hasOwnProperty (pending (processWorkSet MAX_JOBS ?ko)) y \<and>
      y \<in> op_componentId ` snd ` set (inflight (processWorkSet MAX_JOBS ?ko))"
    using processWorkSet_promotes_first [of ?ko y rest MAX_JOBS] pk by simp
  have once: "op_stage opn = Rendering \<Longrightarrow> numbered this \<Longrightarrow>
      renderSettles MAX_JOBS (renderSettles MAX_JOBS this n out) n out' =
        renderSettles MAX_JOBS this n out"
    by (rule settles_once [OF op])
  show ?thesis using ok ko ko' c sib once by simp
qed

theorem completion_always_cleans_up_witness:
  "map_of (inflight oneRunningOneQueued) 0 = Some opA \<and> op_stage opA = Rendering \<and>
   Object_keys (pending oneRunningOneQueued) = Idx 2 # [] \<and>
   length (pending oneRunningOneQueued) < 2 \<and> numbered oneRunningOneQueued \<and>
   renderSettles 2 (renderSettles 2 oneRunningOneQueued 0 (Failed ''stack'')) 0 (Resolved ''artifact'') =
     renderSettles 2 oneRunningOneQueued 0 (Failed ''stack'') \<and>
   hasOwnProperty (working (renderSettles 2 oneRunningOneQueued 0 (Failed ''stack''))) (Idx 2) \<and>
   \<not> hasOwnProperty (pending (renderSettles 2 oneRunningOneQueued 0 (Failed ''stack''))) (Idx 2) \<and>
   core (renderSettles 2 oneRunningOneQueued 0 (Failed ''stack'')) =
     core (renderSettles 2 oneRunningOneQueued 0 (Resolved ''artifact'')) \<and>
   map_of (inflight oneMeasuringOneQueued) 0 = Some opB \<and> op_stage opB = Measuring \<and>
   pixmapSettles 2 oneMeasuringOneQueued 0 (Failed ''stack'') =
     processWorkSet 2 (afterCompletion 0 (op_componentId opB)
       (emit (ConsoleWarn (layer_id (op_layer opB)) ''stack'') oneMeasuringOneQueued))"
proof -
  have a: "map_of (inflight oneRunningOneQueued) 0 = Some opA" by code_simp
  have b: "op_stage opA = Rendering" by code_simp
  have c: "Object_keys (pending oneRunningOneQueued) = Idx 2 # []" by code_simp
  have d: "length (pending oneRunningOneQueued) < 2" by code_simp
  have e: "map_of (inflight oneMeasuringOneQueued) 0 = Some opB" by code_simp
  have f: "op_stage opB = Measuring" by code_simp
  have g: "numbered oneRunningOneQueued" by code_simp
  from a b c d e f g
    completion_always_cleans_up [OF a, where MAX_JOBS = 2 and y = "Idx 2" and rest = "[]"
      and e = "''stack''" and r = "''artifact''" and out = "Failed ''stack''"
      and out' = "Resolved ''artifact''"]
    completion_always_cleans_up [OF e, where MAX_JOBS = 2 and e = "''stack''"]
  show ?thesis by blast
qed

subsection \<open>The debounce gate\<close>

lemma gateInv_render: "gateInv s \<Longrightarrow> gateInv (snd (render s d l c k))"
  by (auto simp: gateInv_def idle_def render_def emit_def Let_def
        split: option.splits list.splits gate.splits)

lemma gateInv_finish: "gateInv s \<Longrightarrow> gateInv (snd (finish s))"
  by (auto simp: gateInv_def idle_def finish_def emit_def Let_def
        split: option.splits list.splits gate.splits)

lemma gateInv_elapse: "gateInv s \<Longrightarrow> gateInv (s\<lparr>now := now s + d\<rparr>)"
  by (auto simp: gateInv_def idle_def split: list.splits gate.splits)

lemma gateInv_timeoutFires: "gateInv s \<Longrightarrow> gateInv (timeoutFires m s h)"
proof -
  assume g: "gateInv s"
  show ?thesis
  proof (cases "timers s")
    case Nil
    then show ?thesis using g by (simp add: timeoutFires_def)
  next
    case (Cons t ts)
    then have ts: "ts = []" using g by (simp add: gateInv_def split: list.splits)
    have p: "pending (s\<lparr>timers := []\<rparr>) = []" using g by (simp add: gateInv_def idle_def)
    show ?thesis using g Cons ts
      by (auto simp: timeoutFires_def processWorkSet_empty [OF p] gateInv_def idle_def emit_def
            attempt_def split: gate.splits)
  qed
qed

lemma gateInv_step: "gateInv s \<Longrightarrow> gateInv (step m s e)"
proof (cases e)
  case (CallCancel k)
  assume "gateInv s"
  then show ?thesis using CallCancel by (simp add: idle_cancel gateInv_def)
next
  case (PixmapSettles n po)
  assume "gateInv s"
  then show ?thesis using PixmapSettles by (simp add: idle_settles gateInv_def)
next
  case (RenderSettles n ro)
  assume "gateInv s"
  then show ?thesis using RenderSettles by (simp add: idle_settles gateInv_def)
qed (simp_all add: gateInv_render gateInv_finish gateInv_elapse gateInv_timeoutFires)

lemma gateInv_run: "gateInv (run m RenderManager es)"
proof (induction es rule: rev_induct)
  case Nil
  show ?case by (simp add: gateInv_def idle_def RenderManager_def)
next
  case (snoc e es)
  then show ?case by (simp add: gateInv_step)
qed

text \<open>
  Claim C7. In every execution from a new manager at most one timeout is outstanding; its
  delay is 1000 and the timer field holds its handle. On any manager whose timer field
  is set, a submission sets no timeout and leaves the outstanding ones, with the times
  they were set, as they are. And the log of calls is in order for the gate: a timeout is
  set only when none is awaited, and every render attempt and every quiescence message of
  a drain comes at least 1000 after the awaited timeout was set. Time is the clock of
  the runtime, which runs the callback of a timeout no earlier than its delay.
\<close>

theorem debounce_gate:
  "length (timers (run MAX_JOBS RenderManager es)) \<le> 1 \<and>
   (\<forall>t \<in> set (timers (run MAX_JOBS RenderManager es)).
      idleTimeout t = 1000 \<and> changeTimer (run MAX_JOBS RenderManager es) = Some (handle t)) \<and>
   (changeTimer this \<noteq> None \<longrightarrow>
      timers (snd (render this doc lyr cpt componentId)) = timers this \<and>
      changeTimer (snd (render this doc lyr cpt componentId)) = changeTimer this \<and>
      trace (snd (render this doc lyr cpt componentId)) = trace this) \<and>
   debounced (trace (run MAX_JOBS RenderManager es))"
proof -
  let ?s = "run MAX_JOBS RenderManager es"
  have g: "gateInv ?s" by (rule gateInv_run)
  have a: "length (timers ?s) \<le> 1"
    using g by (simp add: gateInv_def split: list.splits)
  have b: "\<forall>t \<in> set (timers ?s). idleTimeout t = 1000 \<and> changeTimer ?s = Some (handle t)"
    using g by (auto simp: gateInv_def CHANGE_DELAY_def split: list.splits)
  have c: "changeTimer this \<noteq> None \<longrightarrow>
      timers (snd (render this doc lyr cpt componentId)) = timers this \<and>
      changeTimer (snd (render this doc lyr cpt componentId)) = changeTimer this \<and>
      trace (snd (render this doc lyr cpt componentId)) = trace this"
    by (simp add: render_def Let_def split: option.splits)
  have d: "debounced (trace ?s)"
    using g by (auto simp: gateInv_def debounced_def split: list.splits gate.splits)
  from a b c d show ?thesis by blast
qed

theorem debounce_gate_witness:
  "changeTimer (run 2 RenderManager [CallFinish, CallRender docA layer1 vectorComponent (Idx 1)])
     \<noteq> None \<and>
   timers (run 2 RenderManager [CallFinish, CallRender docA layer1 vectorComponent (Idx 1)]) =
     [\<lparr>handle = 1, idleStart = 0, idleTimeout = 1000\<rparr>] \<and>
   timers (snd (render
       (run 2 RenderManager [CallFinish, CallRender docA layer1 vectorComponent (Idx 1)])
       docA layer2 rasterComponent (Idx 2))) =
     timers (run 2 RenderManager [CallFinish, CallRender docA layer1 vectorComponent (Idx 1)]) \<and>
   length (timers
     (run 2 RenderManager [CallFinish, CallRender docA layer1 vectorComponent (Idx 1)])) \<le> 1 \<and>
   debounced (trace (run 2 RenderManager threeSubmissions)) \<and>
   trace (run 2 RenderManager threeSubmissions) =
     [(0, SetTimeout 1 1000), (1000, ConsoleLog ''Rendering quiesced.'')]"
proof -
  let ?s = "run 2 RenderManager [CallFinish, CallRender docA layer1 vectorComponent (Idx 1)]"
  have a: "changeTimer ?s \<noteq> None" by code_simp
  have b: "timers ?s = [\<lparr>handle = 1, idleStart = 0, idleTimeout = 1000\<rparr>]" by code_simp
  have c: "trace (run 2 RenderManager threeSubmissions) =
     [(0, SetTimeout 1 1000), (1000, ConsoleLog ''Rendering quiesced.'')]" by code_simp
  from a b c
    debounce_gate [where MAX_JOBS = 2
      and es = "[CallFinish, CallRender docA layer1 vectorComponent (Idx 1)]"
      and this = ?s and doc = docA and lyr = layer2 and cpt = rasterComponent
      and componentId = "Idx 2"]
    debounce_gate [where MAX_JOBS = 2 and es = threeSubmissions]
  show ?thesis by blast
qed

end
